theory Spec2Isabelle
  imports Complex_Main "HOL-Library.Word" "HOL-Library.Stream" "HOL-Library.Log_Nat"
begin

section \<open>Python values and exceptions\<close>

text \<open>
  The program is dynamically typed. The values that flow through it are \<open>None\<close> (an
  absent form field), strings (form fields, mode names) and the emissions dictionary.
  A dictionary is kept as an association list in insertion order, which is the order
  Python iterates it in; \<open>dict.get\<close> is the lookup \<open>map_of\<close>.
\<close>

type_synonym emissions_report = "(string \<times> real) list"

datatype py_value = PyNone | PyStr string | PyDict emissions_report

datatype exn = ValueError string | TypeError string

fun str_exn :: "exn \<Rightarrow> string" where
  "str_exn (ValueError msg) = msg"
| "str_exn (TypeError msg) = msg"

fun py_truthy :: "py_value \<Rightarrow> bool" where
  "py_truthy PyNone = False"
| "py_truthy (PyStr s) = (s \<noteq> [])"
| "py_truthy (PyDict d) = (d \<noteq> [])"

definition dict_get :: "emissions_report \<Rightarrow> string \<Rightarrow> real option" where
  "dict_get d k = map_of d k"

section \<open>Double-precision arithmetic\<close>

text \<open>
  A finite double is a dyadic rational \<open>m * 2 ^ e\<close> whose mantissa has at most 53 bits.
  \<open>fl\<close> rounds an exact dyadic to the nearest double, ties to the even mantissa, as
  IEEE 754 arithmetic does after every operation. The exponent is unbounded here: every
  quantity of the program lies between \<open>2 ^ - 53\<close> and \<open>200\<close> in magnitude (or is zero),
  far from overflow and from the subnormal range.
\<close>

type_synonym dyadic = "int \<times> int"

fun valof :: "dyadic \<Rightarrow> real" where
  "valof (m, e) = of_int m * 2 powi e"

definition round_half_even :: "int \<Rightarrow> nat \<Rightarrow> int" where
  "round_half_even m s =
     (let q = m div 2 ^ s; r = m mod 2 ^ s in
      if 2 * r < 2 ^ s then q
      else if 2 ^ s < 2 * r then q + 1
      else if even q then q else q + 1)"

fun fl :: "dyadic \<Rightarrow> dyadic" where
  "fl (m, e) =
     (let n = bitlen \<bar>m\<bar> in
      if n \<le> 53 then (m, e)
      else (sgn m * round_half_even \<bar>m\<bar> (nat (n - 53)), e + (n - 53)))"

fun fmul :: "dyadic \<Rightarrow> dyadic \<Rightarrow> dyadic" where
  "fmul (m1, e1) (m2, e2) = fl (m1 * m2, e1 + e2)"

fun fadd :: "dyadic \<Rightarrow> dyadic \<Rightarrow> dyadic" where
  "fadd (m1, e1) (m2, e2) =
     (let e = min e1 e2 in fl (m1 * 2 ^ nat (e1 - e) + m2 * 2 ^ nat (e2 - e), e))"

definition float_of_int :: "int \<Rightarrow> dyadic" where
  "float_of_int n = fl (n, 0)"

section \<open>The process-wide random source\<close>

text \<open>
  The state of the generator is the sequence of 32-bit words it will still put out.
  \<open>random()\<close> builds a 53-bit fraction from two of them, as CPython does:
  \<^verbatim>\<open>a = genrand_uint32() >> 5; b = genrand_uint32() >> 6;
  return (a * 67108864.0 + b) * (1.0 / 9007199254740992.0)\<close>
  and \<open>uniform(a, b)\<close> is \<^verbatim>\<open>a + (b - a) * self.random()\<close>, where \<open>a\<close> and \<open>b\<close> are the
  integer literals of the source: the difference is an exact integer, the product and
  the sum are double operations.
\<close>

type_synonym rng = "32 word stream"

definition genrand_uint32 :: "rng \<Rightarrow> 32 word \<times> rng" where
  "genrand_uint32 g = (shd g, stl g)"

definition random :: "rng \<Rightarrow> dyadic \<times> rng" where
  "random g =
     (let (w1, g1) = genrand_uint32 g;
          (w2, g2) = genrand_uint32 g1;
          a = drop_bit 5 w1;
          b = drop_bit 6 w2
      in ((int (unat a) * 67108864 + int (unat b), - 53), g2))"

definition uniform :: "int \<Rightarrow> int \<Rightarrow> rng \<Rightarrow> real \<times> rng" where
  "uniform a b g =
     (let (u, g') = random g
      in (valof (fadd (float_of_int a) (fmul (float_of_int (b - a)) u)), g'))"

section \<open>The emissions sampler and the route selector\<close>

definition get_emissions_data :: "py_value \<times> py_value \<Rightarrow> rng \<Rightarrow> emissions_report \<times> rng" where
  "get_emissions_data route g =
     (let (car, g1) = uniform 100 200 g;
          (bike, g2) = uniform 5 10 g1;
          (public_transport, g3) = uniform 20 50 g2;
          emissions_data =
            [(''car'', car), (''bike'', bike), (''public_transport'', public_transport)]
      in (emissions_data, g3))"

text \<open>
  The builtin \<open>min(iterable, key=f)\<close>: an empty iterable raises \<open>ValueError\<close>; otherwise
  the first item is the candidate and a later item replaces it only when its key is
  strictly smaller. Comparing \<open>None\<close> (a key that \<open>dict.get\<close> did not find) with a float
  raises \<open>TypeError\<close>. The wording of the two messages is CPython 3.11's.
\<close>

definition quoted :: "string \<Rightarrow> string" where
  "quoted s = [CHR 0x27] @ s @ [CHR 0x27]"

fun type_name :: "real option \<Rightarrow> string" where
  "type_name None = ''NoneType''"
| "type_name (Some x) = ''float''"

fun py_lt :: "real option \<Rightarrow> real option \<Rightarrow> exn + bool" where
  "py_lt (Some a) (Some b) = Inr (a < b)"
| "py_lt a b =
     Inl (TypeError (quoted ''<'' @ '' not supported between instances of ''
            @ quoted (type_name a) @ '' and '' @ quoted (type_name b)))"

fun min_loop :: "('a \<Rightarrow> real option) \<Rightarrow> 'a \<Rightarrow> real option \<Rightarrow> 'a list \<Rightarrow> exn + 'a" where
  "min_loop key maxitem maxval [] = Inr maxitem"
| "min_loop key maxitem maxval (item # it) =
     (case py_lt (key item) maxval of
        Inl e \<Rightarrow> Inl e
      | Inr True \<Rightarrow> min_loop key item (key item) it
      | Inr False \<Rightarrow> min_loop key maxitem maxval it)"

definition py_min :: "'a list \<Rightarrow> ('a \<Rightarrow> real option) \<Rightarrow> exn + 'a" where
  "py_min iterable key =
     (case iterable of
        [] \<Rightarrow> Inl (ValueError ''min() arg is an empty sequence'')
      | item # it \<Rightarrow> min_loop key item (key item) it)"

definition suggest_route :: "emissions_report \<Rightarrow> exn + string" where
  "suggest_route emissions_data = py_min (map fst emissions_data) (dict_get emissions_data)"

section \<open>The request handler\<close>

text \<open>
  A request carries its HTTP verb and its form fields. A rendered template is kept as
  the template's name with the keyword arguments it was rendered with. A view returns
  either a body, which the framework answers with status 200, or a body with a status.
  The state a request can change is the random source and the application log.
\<close>

record request =
  req_method :: string
  req_form :: "string \<rightharpoonup> string"

datatype page = Page string "(string \<times> py_value) list"

datatype view_result = Body page | BodyStatus page nat

record app_state =
  rng_state :: rng
  app_log :: "string list"

definition render_template :: "string \<Rightarrow> (string \<times> py_value) list \<Rightarrow> page" where
  "render_template name kwargs = Page name kwargs"

fun make_response :: "view_result \<Rightarrow> page \<times> nat" where
  "make_response (Body p) = (p, 200)"
| "make_response (BodyStatus p status) = (p, status)"

definition form_get :: "request \<Rightarrow> string \<Rightarrow> py_value" where
  "form_get req k = (case req_form req k of None \<Rightarrow> PyNone | Some s \<Rightarrow> PyStr s)"

definition logger_error :: "string \<Rightarrow> app_state \<Rightarrow> app_state" where
  "logger_error msg st = st\<lparr>app_log := app_log st @ [msg]\<rparr>"

text \<open>The body of the \<open>try\<close> block of \<open>index\<close>.\<close>

definition index_try :: "request \<Rightarrow> app_state \<Rightarrow> (exn + view_result) \<times> app_state" where
  "index_try req st =
     (if req_method req = ''POST'' then
        (let start_location = form_get req ''start'';
             end_location = form_get req ''end''
         in if \<not> py_truthy start_location \<or> \<not> py_truthy end_location then
              (Inl (ValueError ''Start and end locations must be provided.''), st)
            else
              (let (emissions_data, g) =
                     get_emissions_data (start_location, end_location) (rng_state st);
                   st' = st\<lparr>rng_state := g\<rparr>
               in case suggest_route emissions_data of
                    Inl e \<Rightarrow> (Inl e, st')
                  | Inr optimal_mode \<Rightarrow>
                      (Inr (Body (render_template ''index.html''
                         [(''start'', start_location),
                          (''end'', end_location),
                          (''optimal_mode'', PyStr optimal_mode),
                          (''emissions'', PyDict emissions_data)])), st')))
      else (Inr (Body (render_template ''index.html'' [])), st))"

text \<open>The whole view: the \<open>try\<close> block under its \<open>except Exception\<close> clause.\<close>

definition index :: "request \<Rightarrow> app_state \<Rightarrow> (exn + view_result) \<times> app_state" where
  "index req st =
     (case index_try req st of
        (Inr r, st') \<Rightarrow> (Inr r, st')
      | (Inl e, st') \<Rightarrow>
          (let st'' = logger_error (''An error occurred: '' @ str_exn e) st'
           in (Inr (Body (render_template ''error.html''
                 [(''error_message'', PyStr (str_exn e))])), st'')))"

section \<open>The error handlers\<close>

text \<open>
  The framework raises \<open>NotFound\<close> when no route matches the request and
  \<open>InternalServerError\<close> for a server fault; \<open>app.errorhandler(code)\<close> registers a view
  for the exception's status code, and the framework answers with what that view returns.
\<close>

datatype http_exception = NotFound | MethodNotAllowed | InternalServerError

fun status_code :: "http_exception \<Rightarrow> nat" where
  "status_code NotFound = 404"
| "status_code MethodNotAllowed = 405"
| "status_code InternalServerError = 500"

definition not_found_error :: "http_exception \<Rightarrow> view_result" where
  "not_found_error error =
     BodyStatus (render_template ''error.html'' [(''error_message'', PyStr ''Page not found.'')]) 404"

definition internal_error :: "http_exception \<Rightarrow> view_result" where
  "internal_error error =
     BodyStatus (render_template ''error.html''
       [(''error_message'', PyStr ''Internal server error.'')]) 500"

definition error_handlers :: "(nat \<times> (http_exception \<Rightarrow> view_result)) list" where
  "error_handlers = [(404, not_found_error), (500, internal_error)]"

definition handle_http_exception :: "http_exception \<Rightarrow> (page \<times> nat) option" where
  "handle_http_exception e =
     (case map_of error_handlers (status_code e) of
        None \<Rightarrow> None
      | Some handler \<Rightarrow> Some (make_response (handler e)))"

section \<open>Rounding to the nearest double\<close>

text \<open>
  Rounding never crosses a non-negative integer below \<open>2 ^ 53\<close>: such an integer is
  itself a double and lies on the grid of every binade that reaches it.
\<close>

lemma round_half_even_le:
  assumes "m \<le> K * 2 ^ s"
  shows "round_half_even m s \<le> K"
proof (cases "m = K * 2 ^ s")
  case True
  then show ?thesis by (simp add: round_half_even_def)
next
  case False
  with assms have lt: "m < K * 2 ^ s" by simp
  have "0 \<le> m mod 2 ^ s" by simp
  then have "m div 2 ^ s * 2 ^ s \<le> m"
    using div_mult_mod_eq[of m "2 ^ s"] by linarith
  with lt have "m div 2 ^ s * 2 ^ s < K * 2 ^ s" by linarith
  then have "m div 2 ^ s < K" by simp
  then show ?thesis by (simp add: round_half_even_def Let_def)
qed

lemma round_half_even_ge:
  assumes "K * 2 ^ s \<le> m"
  shows "K \<le> round_half_even m s"
proof -
  have "m mod 2 ^ s < 2 ^ s" by simp
  then have "m < m div 2 ^ s * 2 ^ s + 2 ^ s"
    using div_mult_mod_eq[of m "2 ^ s"] by linarith
  then have "m < (m div 2 ^ s + 1) * 2 ^ s" by (simp add: algebra_simps)
  with assms have "K * 2 ^ s < (m div 2 ^ s + 1) * 2 ^ s" by linarith
  then have "K < m div 2 ^ s + 1" by simp
  then show ?thesis by (simp add: round_half_even_def Let_def)
qed

lemma powi_split:
  assumes "e + int s \<le> 0" and "t = nat (- (e + int s))"
  shows "(2::real) powi e = 1 / 2 ^ (t + s)" and "(2::real) powi (e + int s) = 1 / 2 ^ t"
proof -
  have "e = - int (t + s)" using assms by simp
  then show "(2::real) powi e = 1 / 2 ^ (t + s)"
    by (simp only: power_int_minus power_int_of_nat inverse_eq_divide)
  have "e + int s = - int t" using assms by simp
  then show "(2::real) powi (e + int s) = 1 / 2 ^ t"
    by (simp only: power_int_minus power_int_of_nat inverse_eq_divide)
qed

lemma bitlen_lower:
  assumes "0 < m" and "53 < bitlen m" and "s = nat (bitlen m - 53)"
  shows "2 ^ 52 * 2 ^ s \<le> m"
proof -
  have "nat (bitlen m - 1) = 52 + s" using assms by simp
  with bitlen_bounds[OF assms(1)] show ?thesis by (simp add: power_add)
qed

lemma fl_le:
  assumes le: "valof x \<le> of_int N" and N: "0 \<le> N" "N < 2 ^ 53"
  shows "valof (fl x) \<le> of_int N"
proof -
  obtain m e where x: "x = (m, e)" by (cases x)
  define s where "s = nat (bitlen \<bar>m\<bar> - 53)"
  show ?thesis
  proof (cases "bitlen \<bar>m\<bar> \<le> 53")
    case True
    with le show ?thesis by (simp add: x)
  next
    case False
    then have s: "bitlen \<bar>m\<bar> - 53 = int s" by (simp add: s_def)
    have flx: "fl x = (sgn m * round_half_even \<bar>m\<bar> s, e + int s)"
      using False by (simp add: x s_def Let_def)
    have r0: "0 \<le> round_half_even \<bar>m\<bar> s" by (rule round_half_even_ge) simp
    show ?thesis
    proof (cases "m \<le> 0")
      case True
      then have "sgn m * round_half_even \<bar>m\<bar> s \<le> 0"
        using r0 by (simp add: mult_le_0_iff sgn_if)
      then have "valof (fl x) \<le> 0"
        by (simp add: flx mult_le_0_iff)
      with N show ?thesis by simp
    next
      case False
      then have m: "0 < m" "\<bar>m\<bar> = m" "sgn m = 1" by simp_all
      have low: "2 ^ 52 * 2 ^ s \<le> m"
        using bitlen_lower[of m s] m \<open>\<not> bitlen \<bar>m\<bar> \<le> 53\<close> by (simp add: s_def)
      show ?thesis
      proof (cases "e + int s \<le> 0")
        case True
        define t where "t = nat (- (e + int s))"
        note p = powi_split[OF True t_def]
        from le have "real_of_int m / 2 ^ (t + s) \<le> of_int N" by (simp add: x p(1))
        then have "real_of_int m \<le> of_int (N * 2 ^ t * 2 ^ s)"
          by (simp add: field_simps power_add)
        then have "m \<le> (N * 2 ^ t) * 2 ^ s" by (simp only: of_int_le_iff)
        then have "round_half_even m s \<le> N * 2 ^ t" by (rule round_half_even_le)
        then have "real_of_int (round_half_even m s) \<le> of_int (N * 2 ^ t)"
          by (simp only: of_int_le_iff)
        then show ?thesis by (simp add: flx m p(2) field_simps)
      next
        case False
        then have "1 \<le> e + int s" by simp
        then have "(2::real) powi 53 \<le> 2 powi (52 + int s + e)"
          by (intro power_int_increasing) simp_all
        also have "\<dots> = (2 ^ 52 * 2 ^ s) * 2 powi e"
          by (simp add: power_int_add)
        also have "\<dots> \<le> of_int m * 2 powi e"
        proof -
          have "real_of_int (2 ^ 52 * 2 ^ s) \<le> of_int m" using low by (simp only: of_int_le_iff)
          then show ?thesis by (simp add: mult_right_mono)
        qed
        finally have "(2::real) ^ 53 \<le> valof x" by (simp add: x)
        moreover have "real_of_int N < 2 ^ 53" using N(2) by (metis of_int_less_iff of_int_numeral of_int_power)
        ultimately show ?thesis using le by simp
      qed
    qed
  qed
qed


lemma fl_ge:
  assumes ge: "of_int N \<le> valof x" and N: "0 \<le> N" "N < 2 ^ 53"
  shows "of_int N \<le> valof (fl x)"
proof -
  obtain m e where x: "x = (m, e)" by (cases x)
  define s where "s = nat (bitlen \<bar>m\<bar> - 53)"
  show ?thesis
  proof (cases "bitlen \<bar>m\<bar> \<le> 53")
    case True
    with ge show ?thesis by (simp add: x)
  next
    case False
    have flx: "fl x = (sgn m * round_half_even \<bar>m\<bar> s, e + int s)"
      using False by (simp add: x s_def Let_def)
    have "0 \<le> valof x" using ge N by simp
    have "0 \<le> m"
    proof (rule ccontr)
      assume "\<not> 0 \<le> m"
      then have "real_of_int m < 0" by simp
      then have "real_of_int m * 2 powi e < 0" by (intro mult_neg_pos) simp_all
      with \<open>0 \<le> valof x\<close> show False by (simp add: x)
    qed
    moreover have "m \<noteq> 0" using False by auto
    ultimately have m: "0 < m" "\<bar>m\<bar> = m" "sgn m = 1" by simp_all
    have low: "2 ^ 52 * 2 ^ s \<le> m"
      using bitlen_lower[of m s] m False by (simp add: s_def)
    show ?thesis
    proof (cases "e + int s \<le> 0")
      case True
      define t where "t = nat (- (e + int s))"
      note p = powi_split[OF True t_def]
      from ge have "of_int N \<le> real_of_int m / 2 ^ (t + s)" by (simp add: x p(1))
      then have "real_of_int (N * 2 ^ t * 2 ^ s) \<le> of_int m"
        by (simp add: field_simps power_add)
      then have "(N * 2 ^ t) * 2 ^ s \<le> m" by (simp only: of_int_le_iff)
      then have "N * 2 ^ t \<le> round_half_even m s" by (rule round_half_even_ge)
      then have "real_of_int (N * 2 ^ t) \<le> of_int (round_half_even m s)"
        by (simp only: of_int_le_iff)
      then show ?thesis by (simp add: flx m p(2) field_simps)
    next
      case False
      then have "1 \<le> e + int s" by simp
      then have "(2::real) powi 1 \<le> 2 powi (e + int s)"
        by (intro power_int_increasing) simp_all
      then have two: "(2::real) \<le> 2 powi (e + int s)" by simp
      have "2 ^ 52 \<le> round_half_even m s" using low by (rule round_half_even_ge)
      then have "real_of_int (2 ^ 52) \<le> of_int (round_half_even m s)"
        by (simp only: of_int_le_iff)
      then have r: "(2::real) ^ 52 \<le> of_int (round_half_even m s)" by simp
      have "(2::real) ^ 52 * 2 \<le> of_int (round_half_even m s) * 2 powi (e + int s)"
        using r two by (intro mult_mono) simp_all
      then have "(2::real) ^ 53 \<le> valof (fl x)" by (simp add: flx m)
      moreover have "real_of_int N < 2 ^ 53"
        using N(2) by (metis of_int_less_iff of_int_numeral of_int_power)
      ultimately show ?thesis by simp
    qed
  qed
qed

lemma valof_float_of_int:
  assumes "0 \<le> n" and "n < 2 ^ 53"
  shows "valof (float_of_int n) = of_int n"
proof -
  have "valof (fl (n, 0)) \<le> of_int n"
    by (rule fl_le) (use assms in simp_all)
  moreover have "of_int n \<le> valof (fl (n, 0))"
    by (rule fl_ge) (use assms in simp_all)
  ultimately show ?thesis by (simp only: float_of_int_def)
qed

lemma valof_mul: "valof (m1 * m2, e1 + e2) = valof (m1, e1) * valof (m2, e2)"
  by (simp add: power_int_add)

lemma valof_add:
  "valof (m1 * 2 ^ nat (e1 - min e1 e2) + m2 * 2 ^ nat (e2 - min e1 e2), min e1 e2)
     = valof (m1, e1) + valof (m2, e2)"
proof -
  have shift: "(2::real) ^ nat (e - e') * 2 powi e' = 2 powi e" if "e' \<le> e" for e e' :: int
  proof -
    have "(2::real) ^ nat (e - e') = 2 powi (e - e')" using that by (simp add: power_int_def)
    then show ?thesis by (simp add: power_int_add[symmetric])
  qed
  show ?thesis
    by (simp add: distrib_right mult.assoc shift)
qed

lemma fmul_bounds:
  assumes "of_int L \<le> valof x * valof y" and "valof x * valof y \<le> of_int U"
    and "0 \<le> L" "L < 2 ^ 53" "0 \<le> U" "U < 2 ^ 53"
  shows "of_int L \<le> valof (fmul x y) \<and> valof (fmul x y) \<le> of_int U"
proof -
  obtain m1 e1 m2 e2 where xy: "x = (m1, e1)" "y = (m2, e2)" by (cases x, cases y)
  have "valof (m1 * m2, e1 + e2) = valof x * valof y" unfolding xy by (rule valof_mul)
  with assms show ?thesis by (simp add: xy fl_le fl_ge del: valof.simps fl.simps)
qed

lemma fadd_bounds:
  assumes "of_int L \<le> valof x + valof y" and "valof x + valof y \<le> of_int U"
    and "0 \<le> L" "L < 2 ^ 53" "0 \<le> U" "U < 2 ^ 53"
  shows "of_int L \<le> valof (fadd x y) \<and> valof (fadd x y) \<le> of_int U"
proof -
  obtain m1 e1 m2 e2 where xy: "x = (m1, e1)" "y = (m2, e2)" by (cases x, cases y)
  have "valof (m1 * 2 ^ nat (e1 - min e1 e2) + m2 * 2 ^ nat (e2 - min e1 e2), min e1 e2)
          = valof x + valof y" unfolding xy by (rule valof_add)
  with assms show ?thesis by (simp add: xy Let_def fl_le fl_ge del: valof.simps fl.simps)
qed


lemma unat_drop_bit_5: "unat (drop_bit 5 (w :: 32 word)) < 2 ^ 27"
proof -
  have "unat w < 2 ^ 32" using unsigned_less[of w] by simp
  then have "unat w div 2 ^ 5 < 2 ^ 27" by simp
  then show ?thesis by (simp add: drop_bit_eq_div unat_div)
qed

lemma unat_drop_bit_6: "unat (drop_bit 6 (w :: 32 word)) < 2 ^ 26"
proof -
  have "unat w < 2 ^ 32" using unsigned_less[of w] by simp
  then have "unat w div 2 ^ 6 < 2 ^ 26" by simp
  then show ?thesis by (simp add: drop_bit_eq_div unat_div)
qed

lemma random_range:
  "\<exists>k g'. random g = ((k, - 53), g') \<and> 0 \<le> k \<and> k < 2 ^ 53"
proof -
  define a where "a = unat (drop_bit 5 (shd g))"
  define b where "b = unat (drop_bit 6 (shd (stl g)))"
  have "a < 2 ^ 27" "b < 2 ^ 26"
    unfolding a_def b_def by (rule unat_drop_bit_5, rule unat_drop_bit_6)
  then have "int a * 67108864 + int b < 2 ^ 53" by simp
  moreover have "random g = ((int a * 67108864 + int b, - 53), stl (stl g))"
    by (simp add: random_def genrand_uint32_def a_def b_def)
  ultimately show ?thesis by simp
qed

lemma uniform_bounds:
  assumes "0 \<le> a" and "a \<le> b" and "b < 2 ^ 53"
  shows "of_int a \<le> fst (uniform a b g) \<and> fst (uniform a b g) \<le> of_int b"
proof -
  obtain k g' where r: "random g = ((k, - 53), g')" and k: "0 \<le> k" "k < 2 ^ 53"
    using random_range[of g] by blast
  define u :: dyadic where "u = (k, - 53)"
  have "valof u = of_int k / 2 ^ 53" by (simp add: u_def power_int_minus_divide)
  moreover have "real_of_int k \<le> 2 ^ 53"
    using k(2) by (metis less_imp_le of_int_le_iff of_int_numeral of_int_power)
  ultimately have u: "0 \<le> valof u" "valof u \<le> 1" using k(1) by simp_all
  have d: "valof (float_of_int (b - a)) = of_int (b - a)"
    by (rule valof_float_of_int) (use assms in simp_all)
  have fa: "valof (float_of_int a) = of_int a"
    by (rule valof_float_of_int) (use assms in simp_all)
  define p where "p = fmul (float_of_int (b - a)) u"
  have "real_of_int (b - a) * valof u \<le> of_int (b - a) * 1"
    using u assms by (intro mult_left_mono) simp_all
  moreover have "0 \<le> real_of_int (b - a) * valof u" using u assms by simp
  ultimately have "of_int 0 \<le> valof p \<and> valof p \<le> of_int (b - a)"
    unfolding p_def by (intro fmul_bounds) (use assms in \<open>simp_all add: d\<close>)
  then have "of_int a \<le> valof (float_of_int a) + valof p"
    and "valof (float_of_int a) + valof p \<le> of_int b" by (simp_all add: fa)
  then have "of_int a \<le> valof (fadd (float_of_int a) p) \<and> valof (fadd (float_of_int a) p) \<le> of_int b"
    by (intro fadd_bounds) (use assms in simp_all)
  then show ?thesis by (simp add: uniform_def r p_def u_def del: valof.simps fadd.simps fmul.simps)
qed

lemma get_emissions_data_ranges:
  "\<exists>car bike public_transport g'.
     get_emissions_data route g =
       ([(''car'', car), (''bike'', bike), (''public_transport'', public_transport)], g')
     \<and> 100 \<le> car \<and> car \<le> 200 \<and> 5 \<le> bike \<and> bike \<le> 10
     \<and> 20 \<le> public_transport \<and> public_transport \<le> 50"
proof -
  obtain car g1 where c: "uniform 100 200 g = (car, g1)" by (cases "uniform 100 200 g")
  obtain bike g2 where b: "uniform 5 10 g1 = (bike, g2)" by (cases "uniform 5 10 g1")
  obtain pt g3 where p: "uniform 20 50 g2 = (pt, g3)" by (cases "uniform 20 50 g2")
  have "100 \<le> car \<and> car \<le> 200" using uniform_bounds[of 100 200 g] by (simp add: c)
  moreover have "5 \<le> bike \<and> bike \<le> 10" using uniform_bounds[of 5 10 g1] by (simp add: b)
  moreover have "20 \<le> pt \<and> pt \<le> 50" using uniform_bounds[of 20 50 g2] by (simp add: p)
  moreover have "get_emissions_data route g =
       ([(''car'', car), (''bike'', bike), (''public_transport'', pt)], g3)"
    by (simp add: get_emissions_data_def c b p)
  ultimately show ?thesis by blast
qed

section \<open>The minimum loop\<close>





lemma min_loop_keeps:
  assumes "\<forall>x \<in> set it. \<exists>w. key x = Some w \<and> mv \<le> w"
  shows "min_loop key maxitem (Some mv) it = Inr maxitem"
  using assms by (induction it) auto

lemma min_loop_first:
  assumes "\<forall>x \<in> set xs. \<exists>w. key x = Some w \<and> v < w"
    and "key k = Some v" and "v < mv"
    and "\<forall>x \<in> set ys. \<exists>w. key x = Some w \<and> v \<le> w"
  shows "min_loop key maxitem (Some mv) (xs @ k # ys) = Inr k"
  using assms
proof (induction xs arbitrary: maxitem mv)
  case Nil
  then show ?case by (simp add: min_loop_keeps)
next
  case (Cons x xs)
  from Cons.prems obtain w where w: "key x = Some w" "v < w" by auto
  with Cons show ?case by (cases "w < mv") auto
qed

text \<open>
  Claim C5. The first key that holds the minimum wins a tie: when the values of all
  keys before \<open>k\<close> in the iteration order of the report are strictly greater than the
  value of \<open>k\<close> and the values of all keys after it are greater or equal (so any key tied
  with \<open>k\<close> comes later), \<open>suggest_route\<close> returns \<open>k\<close>. The keys of a dictionary are
  distinct.
\<close>

theorem suggest_route_first_of_ties:
  assumes dist: "distinct (map fst d)"
    and d: "d = xs @ (k, v) # ys"
    and before: "\<forall>(k', v') \<in> set xs. v < v'"
    and after: "\<forall>(k', v') \<in> set ys. v \<le> v'"
  shows "suggest_route d = Inr k"
proof -
  have get: "dict_get d k' = Some v'" if "(k', v') \<in> set d" for k' v'
    using dist that by (simp add: dict_get_def)
  have kv: "dict_get d k = Some v" using get by (simp add: d)
  have ys: "\<forall>x \<in> set (map fst ys). \<exists>w. dict_get d x = Some w \<and> v \<le> w"
    using after get by (fastforce simp: d)
  show ?thesis
  proof (cases xs)
    case Nil
    with kv ys show ?thesis
      by (simp add: suggest_route_def py_min_def d min_loop_keeps)
  next
    case (Cons p ps)
    obtain k0 v0 where p: "p = (k0, v0)" by (cases p)
    have "dict_get d k0 = Some v0" using get by (simp add: d Cons p)
    moreover have "v < v0" using before by (simp add: Cons p)
    moreover have "\<forall>x \<in> set (map fst ps). \<exists>w. dict_get d x = Some w \<and> v < w"
      using before get by (fastforce simp: d Cons)
    ultimately show ?thesis
      using kv ys by (simp add: suggest_route_def py_min_def d Cons p min_loop_first)
  qed
qed

theorem suggest_route_first_of_ties_witness:
  "suggest_route [(''car'', 7), (''bike'', 5), (''public_transport'', 5)] = Inr ''bike''"
proof -
  have "distinct (map fst [(''car'', 7::real), (''bike'', 5), (''public_transport'', 5)])"
    by simp
  moreover have "[(''car'', 7::real), (''bike'', 5), (''public_transport'', 5)]
      = [(''car'', 7)] @ (''bike'', 5) # [(''public_transport'', 5)]"
    by simp
  moreover have "\<forall>(k', v') \<in> set [(''car'', 7::real)]. 5 < v'"
    by simp
  moreover have "\<forall>(k', v') \<in> set [(''public_transport'', 5::real)]. 5 \<le> v'"
    by simp
  ultimately show ?thesis
    by (rule suggest_route_first_of_ties)
qed

section \<open>Properties of the sampler\<close>

text \<open>
  Claim C2, as amended. For every route and every state of the random source,
  \<open>get_emissions_data\<close> returns exactly the three keys \<open>car\<close>, \<open>bike\<close> and
  \<open>public_transport\<close>, with the car value in the closed range from 100 to 200, the bike
  value from 5 to 10 and the public transport value from 20 to 50.
\<close>

theorem get_emissions_data_closed_ranges:
  "\<exists>car bike public_transport.
     fst (get_emissions_data route g) =
       [(''car'', car), (''bike'', bike), (''public_transport'', public_transport)]
     \<and> 100 \<le> car \<and> car \<le> 200 \<and> 5 \<le> bike \<and> bike \<le> 10
     \<and> 20 \<le> public_transport \<and> public_transport \<le> 50"
proof -
  obtain car bike public_transport g' where
    "get_emissions_data route g =
       ([(''car'', car), (''bike'', bike), (''public_transport'', public_transport)], g')"
    and "100 \<le> car \<and> car \<le> 200 \<and> 5 \<le> bike \<and> bike \<le> 10
         \<and> 20 \<le> public_transport \<and> public_transport \<le> 50"
    using get_emissions_data_ranges[of route g] by blast
  then show ?thesis by (intro exI[of _ car] exI[of _ bike] exI[of _ public_transport]) simp
qed

text \<open>
  When the generator puts out words of all ones, \<open>random()\<close> is \<open>1 - 2 ^ - 53\<close>, the
  product \<open>100 * random()\<close> rounds to the double just below 100, and the sum with 100 lies
  halfway between two doubles and rounds to the even one, 200.
\<close>

lemma random_all_ones:
  "random (sconst 4294967295) = ((9007199254740991, - 53), sconst 4294967295)"
  by (simp add: random_def genrand_uint32_def)

lemma uniform_all_ones:
  "uniform 100 200 (sconst 4294967295) = (200, sconst 4294967295)"
  "uniform 5 10 (sconst 4294967295) = (10, sconst 4294967295)"
  "uniform 20 50 (sconst 4294967295) = (50, sconst 4294967295)"
  by (simp_all add: uniform_def random_all_ones float_of_int_def compute_bitlen
        round_half_even_def)

text \<open>
  Claim C2 as stated, with half-open ranges, fails at that state of the random source:
  the car value is 200, the bike value 10 and the public transport value 50.
\<close>

theorem get_emissions_data_reaches_upper_ends:
  "fst (get_emissions_data (PyStr ''A'', PyStr ''B'') (sconst 4294967295)) =
     [(''car'', 200), (''bike'', 10), (''public_transport'', 50)]"
  by (simp add: get_emissions_data_def uniform_all_ones)

text \<open>
  Claim C8. The route is ignored: with the same state of the random source, any two
  routes give the same report and leave the source in the same state.
\<close>

theorem get_emissions_data_ignores_route:
  "get_emissions_data route1 g = get_emissions_data route2 g"
  by (simp add: get_emissions_data_def)

section \<open>Properties of the selector\<close>

text \<open>
  Claim C6. On an empty report \<open>suggest_route\<close> raises \<open>ValueError\<close>; it returns no mode.
\<close>

theorem suggest_route_empty:
  "\<exists>msg. suggest_route [] = Inl (ValueError msg)"
  by (simp add: suggest_route_def py_min_def)

text \<open>Every sampled report has its minimum at \<open>bike\<close>: the three ranges do not overlap.\<close>

lemma suggest_route_sampled:
  "suggest_route (fst (get_emissions_data route g)) = Inr ''bike''"
proof -
  obtain car bike public_transport where
    "fst (get_emissions_data route g) =
       [(''car'', car), (''bike'', bike), (''public_transport'', public_transport)]"
    and "100 \<le> car" "bike \<le> 10" "20 \<le> public_transport"
    using get_emissions_data_ranges[of route g] by force
  then show ?thesis
    by (simp add: suggest_route_def py_min_def dict_get_def)
qed

section \<open>Properties of the request handler\<close>

text \<open>
  Claim C3. For every POST request whose \<open>start\<close> or \<open>end\<close> field is absent or empty,
  the handler raises the validation error with exactly the message
  "Start and end locations must be provided.", and the view answers with the error page
  rendered with that message (after logging it).
\<close>

theorem index_validation_error:
  assumes "req_method req = ''POST''"
    and "req_form req ''start'' = None \<or> req_form req ''start'' = Some ''''
         \<or> req_form req ''end'' = None \<or> req_form req ''end'' = Some ''''"
  shows "index_try req st =
           (Inl (ValueError ''Start and end locations must be provided.''), st)
         \<and> index req st =
           (Inr (Body (render_template ''error.html''
              [(''error_message'', PyStr ''Start and end locations must be provided.'')])),
            logger_error ''An error occurred: Start and end locations must be provided.'' st)"
proof -
  have "\<not> py_truthy (form_get req ''start'') \<or> \<not> py_truthy (form_get req ''end'')"
    using assms(2) by (auto simp: form_get_def)
  then have "index_try req st =
      (Inl (ValueError ''Start and end locations must be provided.''), st)"
    using assms(1) by (simp add: index_try_def Let_def)
  then show ?thesis by (simp add: index_def)
qed

theorem index_validation_error_witness:
  "index_try \<lparr>req_method = ''POST'', req_form = [''end'' \<mapsto> ''B'']\<rparr>
       \<lparr>rng_state = sconst 0, app_log = []\<rparr> =
     (Inl (ValueError ''Start and end locations must be provided.''),
      \<lparr>rng_state = sconst 0, app_log = []\<rparr>)
   \<and> index \<lparr>req_method = ''POST'', req_form = [''end'' \<mapsto> ''B'']\<rparr>
       \<lparr>rng_state = sconst 0, app_log = []\<rparr> =
     (Inr (Body (render_template ''error.html''
        [(''error_message'', PyStr ''Start and end locations must be provided.'')])),
      logger_error ''An error occurred: Start and end locations must be provided.''
        \<lparr>rng_state = sconst 0, app_log = []\<rparr>)"
  by (rule index_validation_error) simp_all



text \<open>
  Claim C9. Validation accepts every non-empty string as it is, strings of spaces
  included: a POST whose \<open>start\<close> and \<open>end\<close> are both non-empty renders the result page
  with the two strings unchanged, the selected mode and the sampled report, and advances
  the random source.
\<close>

theorem index_accepts_nonempty:
  assumes "req_method req = ''POST''"
    and "req_form req ''start'' = Some s" and "req_form req ''end'' = Some e"
    and "s \<noteq> []" and "e \<noteq> []"
  shows "\<exists>emissions_data g.
           get_emissions_data (PyStr s, PyStr e) (rng_state st) = (emissions_data, g)
           \<and> index req st =
               (Inr (Body (render_template ''index.html''
                  [(''start'', PyStr s), (''end'', PyStr e),
                   (''optimal_mode'', PyStr ''bike''),
                   (''emissions'', PyDict emissions_data)])),
                st\<lparr>rng_state := g\<rparr>)"
proof -
  obtain emissions_data g where
    d: "get_emissions_data (PyStr s, PyStr e) (rng_state st) = (emissions_data, g)"
    by (cases "get_emissions_data (PyStr s, PyStr e) (rng_state st)")
  have "suggest_route emissions_data = Inr ''bike''"
    using suggest_route_sampled[of "(PyStr s, PyStr e)" "rng_state st"] by (simp add: d)
  then have "index_try req st =
      (Inr (Body (render_template ''index.html''
          [(''start'', PyStr s), (''end'', PyStr e),
           (''optimal_mode'', PyStr ''bike''),
           (''emissions'', PyDict emissions_data)])),
       st\<lparr>rng_state := g\<rparr>)"
    using assms by (simp add: index_try_def form_get_def d)
  then show ?thesis using d by (simp add: index_def)
qed

theorem index_accepts_nonempty_witness:
  "\<exists>emissions_data g.
     get_emissions_data (PyStr ''   '', PyStr '' '') (rng_state \<lparr>rng_state = sconst 0, app_log = []\<rparr>)
       = (emissions_data, g)
     \<and> index \<lparr>req_method = ''POST'', req_form = [''start'' \<mapsto> ''   '', ''end'' \<mapsto> '' '']\<rparr>
         \<lparr>rng_state = sconst 0, app_log = []\<rparr> =
         (Inr (Body (render_template ''index.html''
            [(''start'', PyStr ''   ''), (''end'', PyStr '' ''),
             (''optimal_mode'', PyStr ''bike''),
             (''emissions'', PyDict emissions_data)])),
          \<lparr>rng_state = sconst 0, app_log = []\<rparr>\<lparr>rng_state := g\<rparr>)"
  by (rule index_accepts_nonempty) simp_all


section \<open>Properties of the error handlers\<close>

text \<open>
  Claim C7. When no route matches, the framework's \<open>NotFound\<close> is answered with status
  404 and the error page with exactly the message "Page not found."; an
  \<open>InternalServerError\<close> is answered with status 500 and the error page with exactly the
  message "Internal server error.".
\<close>

theorem error_handlers_pages:
  "handle_http_exception NotFound =
     Some (render_template ''error.html'' [(''error_message'', PyStr ''Page not found.'')], 404)
   \<and> handle_http_exception InternalServerError =
     Some (render_template ''error.html''
             [(''error_message'', PyStr ''Internal server error.'')], 500)"
  by (simp add: handle_http_exception_def error_handlers_def not_found_error_def
        internal_error_def)

end
